theory Spec2Isabelle
  imports Complex_Main "HOL-Library.Sublist"
begin

section \<open>JavaScript values\<close>

text \<open>
  The reader walks values produced by JSON-LD expansion, but its entry point
  \<^verbatim>\<open>JsonLDReader.of (value: unknown)\<close> accepts any value. The model covers
  \<^verbatim>\<open>undefined\<close>, \<^verbatim>\<open>null\<close>, booleans, numbers, bigints, strings, arrays and
  plain objects. A number is NaN, an infinity or a finite value (the two zeros are
  identified). A string is its sequence of UTF-8 bytes; splitting at the ASCII
  characters \<^verbatim>\<open>#\<close> and \<^verbatim>\<open>/\<close> and comparing for equality agree with
  JavaScript's code units there. An object is the list of its own properties in the
  order \<^verbatim>\<open>Object.keys\<close> enumerates them.
\<close>

datatype number = NaN | PosInf | NegInf | Fin rat

datatype jsval =
    JUndefined
  | JNull
  | JBool bool
  | JNum number
  | JBigInt int
  | JStr string
  | JArr "jsval list"
  | JObj "(string \<times> jsval) list"

text \<open>What a \<^verbatim>\<open>throw\<close> carries: an \<^verbatim>\<open>Error\<close> with its message, or the
  \<^verbatim>\<open>TypeError\<close> the engine raises on a property access on \<^verbatim>\<open>null\<close> or
  \<^verbatim>\<open>undefined\<close> and on a call of something that is not a function.\<close>

datatype exn = Error string | TypeError

definition and_then :: "exn + 'a \<Rightarrow> ('a \<Rightarrow> exn + 'b) \<Rightarrow> exn + 'b" where
  "and_then m f = (case m of Inl e \<Rightarrow> Inl e | Inr x \<Rightarrow> f x)"

text \<open>\<^verbatim>\<open>typeof v\<close>.\<close>

fun typeof :: "jsval \<Rightarrow> string" where
  "typeof JUndefined = ''undefined''"
| "typeof JNull = ''object''"
| "typeof (JBool b) = ''boolean''"
| "typeof (JNum n) = ''number''"
| "typeof (JBigInt i) = ''bigint''"
| "typeof (JStr s) = ''string''"
| "typeof (JArr xs) = ''object''"
| "typeof (JObj kv) = ''object''"

text \<open>\<^verbatim>\<open>a ?? b\<close>.\<close>

definition nullish :: "jsval \<Rightarrow> bool" where
  "nullish v = (v = JNull \<or> v = JUndefined)"

definition coalesce :: "jsval \<Rightarrow> jsval \<Rightarrow> jsval" where
  "coalesce a b = (if nullish a then b else a)"

text \<open>\<^verbatim>\<open>error ?? fallback\<close> for the optional \<^verbatim>\<open>error?: Error\<close> parameter.\<close>

definition or_default :: "exn option \<Rightarrow> exn \<Rightarrow> exn" where
  "or_default error fallback = (case error of Some e \<Rightarrow> e | None \<Rightarrow> fallback)"

text \<open>Own property of a plain object; \<^verbatim>\<open>undefined\<close> when there is none.\<close>

definition lookup :: "(string \<times> jsval) list \<Rightarrow> string \<Rightarrow> jsval" where
  "lookup kv k = (case map_of kv k of Some v \<Rightarrow> v | None \<Rightarrow> JUndefined)"

text \<open>\<^verbatim>\<open>v[k]\<close> for a property name \<open>k\<close> that neither arrays, strings nor the
  built-in prototypes define (the source uses it with \<^verbatim>\<open>'@value'\<close>,
  \<^verbatim>\<open>'@id'\<close> and \<^verbatim>\<open>'@type'\<close>).\<close>

fun member :: "jsval \<Rightarrow> string \<Rightarrow> exn + jsval" where
  "member JUndefined k = Inl TypeError"
| "member JNull k = Inl TypeError"
| "member (JObj kv) k = Inr (lookup kv k)"
| "member v k = Inr JUndefined"

text \<open>\<^verbatim>\<open>v?.[k]\<close>, for the same property names.\<close>

fun opt_member :: "jsval \<Rightarrow> string \<Rightarrow> jsval" where
  "opt_member (JObj kv) k = lookup kv k"
| "opt_member v k = JUndefined"

text \<open>\<^verbatim>\<open>v?.length\<close> of a value that is not a primitive.\<close>

fun opt_length :: "jsval \<Rightarrow> jsval" where
  "opt_length (JArr xs) = JNum (Fin (of_nat (length xs)))"
| "opt_length (JObj kv) = lookup kv ''length''"
| "opt_length v = JUndefined"

text \<open>\<^verbatim>\<open>v[0]\<close> of an array or a plain object.\<close>

fun index0 :: "jsval \<Rightarrow> jsval" where
  "index0 (JArr []) = JUndefined"
| "index0 (JArr (x # xs)) = x"
| "index0 (JObj kv) = lookup kv ''0''"
| "index0 v = JUndefined"

text \<open>\<^verbatim>\<open>scope[index]\<close> of an array at an integer index.\<close>

definition at_index :: "jsval list \<Rightarrow> int \<Rightarrow> jsval" where
  "at_index xs i = (if 0 \<le> i \<and> i < int (length xs) then xs ! nat i else JUndefined)"

text \<open>\<^verbatim>\<open>s.split(c)\<close> at a one-character separator: a separator opens a new
  piece, any other character joins the first piece of the rest. The result is never
  empty, so the \<open>[]\<close> case below is never taken.\<close>

fun js_split :: "char \<Rightarrow> string \<Rightarrow> string list" where
  "js_split c [] = [[]]"
| "js_split c (x # xs) =
     (if x = c then [] # js_split c xs
      else (case js_split c xs of
              [] \<Rightarrow> [[x]]
            | y # ys \<Rightarrow> (x # y) # ys))"

text \<open>\<^verbatim>\<open>xs[i]\<close> of a list of pieces: \<open>None\<close> stands for \<^verbatim>\<open>undefined\<close>.\<close>

definition piece :: "string list \<Rightarrow> nat \<Rightarrow> string option" where
  "piece xs i = (if i < length xs then Some (xs ! i) else None)"

text \<open>The decimal digits of an integer, as a template literal prints an index.\<close>

fun digits :: "nat \<Rightarrow> string" where
  "digits n =
     (if n < 10 then [''0123456789'' ! n]
      else digits (n div 10) @ [''0123456789'' ! (n mod 10)])"

definition show_int :: "int \<Rightarrow> string" where
  "show_int i = (if i < 0 then CHR ''-'' # digits (nat (- i)) else digits (nat i))"

section \<open>The reader: \<^verbatim>\<open>JsonLDReader\<close> and \<^verbatim>\<open>Nothing\<close>\<close>

text \<open>A reader is an instance of \<^verbatim>\<open>JsonLDReader\<close> proper (Present) or of its
  subclass \<^verbatim>\<open>Nothing\<close> (Absent), which stores one error.\<close>

datatype reader = JsonLDReader jsval | Nothing exn

text \<open>The fields the constructors set: \<^verbatim>\<open>Nothing\<close> calls \<^verbatim>\<open>super()\<close> with no
  argument, so its \<^verbatim>\<open>value\<close> is \<^verbatim>\<open>undefined\<close> and its \<^verbatim>\<open>length\<close> is 1.\<close>

fun value_of :: "reader \<Rightarrow> jsval" where
  "value_of (JsonLDReader v) = v"
| "value_of (Nothing e) = JUndefined"


fun errors_of :: "reader \<Rightarrow> exn list" where
  "errors_of (JsonLDReader v) = []"
| "errors_of (Nothing e) = [e]"

definition JsonLDReader_of :: "jsval \<Rightarrow> reader" where
  "JsonLDReader_of v = JsonLDReader v"

text \<open>\<^verbatim>\<open>strict\<close> is not overridden by \<^verbatim>\<open>Nothing\<close>.\<close>

definition strict :: "reader \<Rightarrow> reader" where
  "strict r = JsonLDReader_of (value_of r)"

section \<open>Key resolution (\<^verbatim>\<open>utils/read\<close>)\<close>

fun extractType :: "jsval \<Rightarrow> exn + jsval" where
  "extractType (JArr []) = extractType JUndefined"
| "extractType (JArr (x # xs)) = extractType x"
| "extractType (JObj kv) = Inr (lookup kv ''@value'')"
| "extractType JNull = Inl TypeError"
| "extractType (JStr v) =
     (let hashSplit = js_split CHR ''#'' v in
      if length hashSplit = 2 then Inr (JStr (hashSplit ! 1))
      else
        let slashSplit = js_split CHR ''/'' v in
        if length slashSplit = 1 then Inr (JStr v)
        else Inr (JStr (slashSplit ! (length slashSplit - 1))))"
| "extractType v = Inl TypeError"

text \<open>\<^verbatim>\<open>Object.keys(scope)\<close>; the scope is a plain object or \<^verbatim>\<open>null\<close>, since
  \<^verbatim>\<open>read\<close> lets only values of type \<^verbatim>\<open>'object'\<close> that are not arrays through.\<close>

fun keys :: "jsval \<Rightarrow> exn + string list" where
  "keys (JObj kv) = Inr (map fst kv)"
| "keys v = Inl TypeError"

definition hash_key :: "string \<Rightarrow> string \<Rightarrow> bool" where
  "hash_key key k = (piece (js_split CHR ''#'' k) 1 = Some key)"

definition slash_key :: "string \<Rightarrow> string \<Rightarrow> bool" where
  "slash_key key k =
     (let split = js_split CHR ''/'' k in piece split (length split - 1) = Some key)"

definition readType :: "jsval \<Rightarrow> exn + jsval \<times> bool" where
  "readType scope =
     and_then (member scope ''@type'') (\<lambda>v.
       if v \<noteq> JUndefined then and_then (extractType v) (\<lambda>t. Inr (t, True))
       else and_then (keys scope) (\<lambda>ks.
         case find (hash_key ''type'') ks of
           Some key \<Rightarrow>
             and_then (member scope key) (\<lambda>w. and_then (extractType w) (\<lambda>t. Inr (t, True)))
         | None \<Rightarrow> Inr (JStr '''', False)))"

definition readId :: "jsval \<Rightarrow> exn + jsval \<times> bool" where
  "readId scope =
     and_then (member scope ''@id'') (\<lambda>v.
       if v \<noteq> JUndefined then Inr (v, True)
       else and_then (keys scope) (\<lambda>ks.
         case find (hash_key ''id'') ks of
           Some key \<Rightarrow> and_then (member scope key) (\<lambda>w. Inr (w, True))
         | None \<Rightarrow> Inr (JStr '''', False)))"

definition readValue :: "jsval \<Rightarrow> exn + jsval \<times> bool" where
  "readValue scope =
     and_then (member scope ''@value'') (\<lambda>v.
       if v \<noteq> JUndefined then Inr (v, True)
       else and_then (keys scope) (\<lambda>ks.
         case find (hash_key ''value'') ks of
           Some key \<Rightarrow> and_then (member scope key) (\<lambda>w. Inr (w, True))
         | None \<Rightarrow> Inr (JStr '''', False)))"

definition readAsPreDefinedKey :: "jsval \<Rightarrow> string \<Rightarrow> exn + jsval \<times> bool" where
  "readAsPreDefinedKey scope key =
     and_then
       (if key \<in> set [''type'', ''@type''] then readType scope else Inr (JStr '''', False))
       (\<lambda>(t, founded).
         if founded then Inr (t, True)
         else and_then
           (if key \<in> set [''id'', ''@id''] then readId scope else Inr (JStr '''', False))
           (\<lambda>(i, founded).
             if founded then Inr (i, True)
             else and_then
               (if key \<in> set [''value'', ''@value''] then readValue scope
                else Inr (JStr '''', False))
               (\<lambda>(v, founded).
                 if founded then Inr (v, True) else Inr (JStr '''', False))))"

definition getFullKey :: "jsval \<Rightarrow> string \<Rightarrow> exn + string option" where
  "getFullKey scope key =
     and_then (keys scope) (\<lambda>ks.
       case find (hash_key key) ks of
         Some fullKey \<Rightarrow> Inr (Some fullKey)
       | None \<Rightarrow> Inr (find (slash_key key) ks))"

definition readAsObject :: "jsval \<Rightarrow> string \<Rightarrow> exn + reader" where
  "readAsObject scope key =
     and_then (readAsPreDefinedKey scope key) (\<lambda>(v, isPreDefined).
       if isPreDefined then Inr (JsonLDReader_of v)
       else and_then (getFullKey scope key) (\<lambda>fullKey.
         case fullKey of
           None \<Rightarrow> Inr (Nothing (Error (''Not found key: '' @ key)))
         | Some fk \<Rightarrow>
             and_then (member scope fk) (\<lambda>w.
               if key = ''type''
               then and_then (extractType w) (\<lambda>t. Inr (JsonLDReader_of t))
               else Inr (JsonLDReader_of w))))"

definition readAsArray :: "jsval list \<Rightarrow> int \<Rightarrow> reader" where
  "readAsArray scope index =
     (let v = at_index scope index in
      if v \<noteq> JUndefined then JsonLDReader_of v
      else Nothing (Error (''Not found index: '' @ show_int index)))"

fun read :: "jsval \<Rightarrow> int option \<Rightarrow> string option \<Rightarrow> exn + reader" where
  "read (JArr xs) (Some index) key = Inr (readAsArray xs index)"
| "read (JArr []) None key = read JUndefined None key"
| "read (JArr (x # xs)) None key =
     (if length (x # xs) > 2 then Inr (Nothing (Error ''Not an object''))
      else read x None key)"
| "read v (Some index) key = Inr (Nothing (Error ''Not an array''))"
| "read v None key =
     (if typeof v \<noteq> ''object'' then Inr (Nothing (Error ''Not an object''))
      else case key of
        None \<Rightarrow> Inr (Nothing (Error ''key or index is required''))
      | Some k \<Rightarrow> readAsObject v k)"

section \<open>The methods of \<^verbatim>\<open>JsonLDReader\<close> and \<^verbatim>\<open>Nothing\<close>\<close>

text \<open>What \<^verbatim>\<open>read (keyOrIndex: string | number)\<close> is called with. An index is an
  integer (of magnitude below \<open>10\<^sup>2\<^sup>1\<close>, where a template literal prints plain
  digits).\<close>

datatype selector = Key string | Index int

fun reader_read :: "reader \<Rightarrow> selector \<Rightarrow> exn + reader" where
  "reader_read (Nothing e) sel = Inr (Nothing e)"
| "reader_read (JsonLDReader v) (Index i) = read v (Some i) None"
| "reader_read (JsonLDReader v) (Key k) = read v None (Some k)"

definition getValue :: "jsval \<Rightarrow> exn + jsval" where
  "getValue v =
     (if typeof v \<in> set [''string'', ''number'', ''bigint'', ''boolean''] then Inr v
      else if opt_length v = JNum (Fin 1) then
        (let scope = index0 v in
         Inr (coalesce (coalesce (opt_member scope ''@value'') (opt_member scope ''@id'')) scope))
      else and_then (member v ''@value'') (\<lambda>a.
        if \<not> nullish a then Inr a
        else and_then (member v ''@id'') (\<lambda>b.
          if \<not> nullish b then Inr b else Inr v)))"

fun get :: "reader \<Rightarrow> exn + jsval" where
  "get (JsonLDReader v) = getValue v"
| "get (Nothing e) = Inr JNull"

fun getOrThrow :: "reader \<Rightarrow> exn option \<Rightarrow> exn + jsval" where
  "getOrThrow (JsonLDReader v) error = getValue v"
| "getOrThrow (Nothing e) error = Inl (or_default error e)"

fun getOrElse :: "reader \<Rightarrow> jsval \<Rightarrow> exn + jsval" where
  "getOrElse (JsonLDReader v) defaultValue = getValue v"
| "getOrElse (Nothing e) defaultValue = Inr defaultValue"

text \<open>\<^verbatim>\<open>try { return body } catch { return defaultValue }\<close>.\<close>

definition try_catch :: "exn + 'a \<Rightarrow> 'a \<Rightarrow> exn + 'a" where
  "try_catch body defaultValue = (case body of Inl e \<Rightarrow> Inr defaultValue | Inr x \<Rightarrow> Inr x)"

text \<open>The conversions \<^verbatim>\<open>String(v)\<close> and \<^verbatim>\<open>Number(v)\<close> are built into the
  language. Their floating-point parts are parameters: how a number prints, which number
  a string that is not blank denotes, and which number a bigint rounds to.\<close>

record builtins =
  NumberToString :: "number \<Rightarrow> string"
  StringNumericLiteral :: "string \<Rightarrow> number"
  BigIntToNumber :: "int \<Rightarrow> number"

fun join :: "string list \<Rightarrow> string" where
  "join [] = []"
| "join [x] = x"
| "join (x # y # ys) = x @ CHR '','' # join (y # ys)"

fun ToString :: "builtins \<Rightarrow> jsval \<Rightarrow> string" where
  "ToString b JUndefined = ''undefined''"
| "ToString b JNull = ''null''"
| "ToString b (JBool t) = (if t then ''true'' else ''false'')"
| "ToString b (JNum n) = NumberToString b n"
| "ToString b (JBigInt i) = show_int i"
| "ToString b (JStr s) = s"
| "ToString b (JArr xs) = join (map (\<lambda>x. if nullish x then [] else ToString b x) xs)"
| "ToString b (JObj kv) = ''[object Object]''"

text \<open>The UTF-8 encodings of the code points that \<^verbatim>\<open>Number\<close> skips around a
  numeric string: tab, line feed, vertical tab, form feed, carriage return, space,
  U+00A0, U+1680, U+2000 to U+200A, U+2028, U+2029, U+202F, U+205F, U+3000, U+FEFF.\<close>

definition WhiteSpace :: "string list" where
  "WhiteSpace =
     [[CHR 0x09], [CHR 0x0A], [CHR 0x0B], [CHR 0x0C], [CHR 0x0D], [CHR 0x20],
      [CHR 0xC2, CHR 0xA0],
      [CHR 0xE1, CHR 0x9A, CHR 0x80],
      [CHR 0xE2, CHR 0x80, CHR 0x80], [CHR 0xE2, CHR 0x80, CHR 0x81],
      [CHR 0xE2, CHR 0x80, CHR 0x82], [CHR 0xE2, CHR 0x80, CHR 0x83],
      [CHR 0xE2, CHR 0x80, CHR 0x84], [CHR 0xE2, CHR 0x80, CHR 0x85],
      [CHR 0xE2, CHR 0x80, CHR 0x86], [CHR 0xE2, CHR 0x80, CHR 0x87],
      [CHR 0xE2, CHR 0x80, CHR 0x88], [CHR 0xE2, CHR 0x80, CHR 0x89],
      [CHR 0xE2, CHR 0x80, CHR 0x8A],
      [CHR 0xE2, CHR 0x80, CHR 0xA8], [CHR 0xE2, CHR 0x80, CHR 0xA9],
      [CHR 0xE2, CHR 0x80, CHR 0xAF],
      [CHR 0xE2, CHR 0x81, CHR 0x9F],
      [CHR 0xE3, CHR 0x80, CHR 0x80],
      [CHR 0xEF, CHR 0xBB, CHR 0xBF]]"

text \<open>Dropping leading white space, one code point at a time (a code point found at
  the front of \<open>c # cs\<close> has at least one byte, the \<open>c\<close>).\<close>

fun trimStart :: "string \<Rightarrow> string" where
  "trimStart [] = []"
| "trimStart (c # cs) =
     (case find (\<lambda>w. prefix w (c # cs)) WhiteSpace of
        Some w \<Rightarrow> trimStart (drop (length w - 1) cs)
      | None \<Rightarrow> c # cs)"

text \<open>\<^verbatim>\<open>Number(s)\<close> of a string: a blank string is 0.\<close>

definition StringToNumber :: "builtins \<Rightarrow> string \<Rightarrow> number" where
  "StringToNumber b s = (if trimStart s = [] then Fin 0 else StringNumericLiteral b s)"

text \<open>\<^verbatim>\<open>Number(v)\<close>: an array or an object goes through its string form.\<close>

fun ToNumber :: "builtins \<Rightarrow> jsval \<Rightarrow> number" where
  "ToNumber b JUndefined = NaN"
| "ToNumber b JNull = Fin 0"
| "ToNumber b (JBool t) = (if t then Fin 1 else Fin 0)"
| "ToNumber b (JNum n) = n"
| "ToNumber b (JBigInt i) = BigIntToNumber b i"
| "ToNumber b (JStr s) = StringToNumber b s"
| "ToNumber b (JArr xs) = StringToNumber b (ToString b (JArr xs))"
| "ToNumber b (JObj kv) = StringToNumber b (ToString b (JObj kv))"

definition isNaN :: "number \<Rightarrow> bool" where
  "isNaN n = (n = NaN)"

fun stringOrThrow :: "builtins \<Rightarrow> reader \<Rightarrow> exn option \<Rightarrow> exn + string" where
  "stringOrThrow b (JsonLDReader v) error =
     and_then (getValue v) (\<lambda>u.
       if typeof u \<in> set [''string'', ''number'', ''bigint'', ''boolean'']
       then Inr (ToString b u)
       else Inl (or_default error (Error ''Not a string'')))"
| "stringOrThrow b (Nothing e) error = Inl (or_default error e)"

fun stringOrElse :: "builtins \<Rightarrow> reader \<Rightarrow> string \<Rightarrow> exn + string" where
  "stringOrElse b (JsonLDReader v) defaultValue =
     try_catch (stringOrThrow b (JsonLDReader v) None) defaultValue"
| "stringOrElse b (Nothing e) defaultValue = Inr defaultValue"

fun numberOrThrow :: "builtins \<Rightarrow> reader \<Rightarrow> exn option \<Rightarrow> exn + number" where
  "numberOrThrow b (JsonLDReader v) error =
     and_then (getValue v) (\<lambda>u.
       case u of
         JNum n \<Rightarrow> Inr n
       | _ \<Rightarrow>
           (let numberValue = ToNumber b u in
            if isNaN numberValue then Inl (or_default error (Error ''Not a number''))
            else Inr numberValue))"
| "numberOrThrow b (Nothing e) error = Inl (or_default error e)"

fun numberOrElse :: "builtins \<Rightarrow> reader \<Rightarrow> number \<Rightarrow> exn + number" where
  "numberOrElse b (JsonLDReader v) defaultValue =
     try_catch (numberOrThrow b (JsonLDReader v) None) defaultValue"
| "numberOrElse b (Nothing e) defaultValue = Inr defaultValue"

fun booleanOrThrow :: "reader \<Rightarrow> exn option \<Rightarrow> exn + bool" where
  "booleanOrThrow (JsonLDReader v) error =
     and_then (getValue v) (\<lambda>u.
       case u of
         JBool t \<Rightarrow> Inr t
       | _ \<Rightarrow>
           if u = JStr ''true'' \<or> u = JStr ''false'' \<or> u = JStr ''0'' \<or> u = JStr ''1''
           then Inr (u = JStr ''true'' \<or> u = JStr ''1'')
           else if u = JNum (Fin 0) \<or> u = JNum (Fin 1) then Inr (u = JNum (Fin 1))
           else Inl (or_default error (Error ''Not a boolean'')))"
| "booleanOrThrow (Nothing e) error = Inl (or_default error e)"

fun booleanOrElse :: "reader \<Rightarrow> bool \<Rightarrow> exn + bool" where
  "booleanOrElse (JsonLDReader v) defaultValue =
     try_catch (booleanOrThrow (JsonLDReader v) None) defaultValue"
| "booleanOrElse (Nothing e) defaultValue = Inr defaultValue"

section \<open>The rules in the words of the specification\<close>

text \<open>The segment of a key between its first \<^verbatim>\<open>#\<close> and the next one (or the end). A
  key with no \<^verbatim>\<open>#\<close> has none.\<close>

definition hash_segment :: "string \<Rightarrow> string option" where
  "hash_segment s =
     (if CHR ''#'' \<in> set s
      then Some (takeWhile (\<lambda>x. x \<noteq> CHR ''#'') (tl (dropWhile (\<lambda>x. x \<noteq> CHR ''#'') s)))
      else None)"

text \<open>The segment after the last \<^verbatim>\<open>/\<close>: the whole key when it has none.\<close>

definition slash_segment :: "string \<Rightarrow> string" where
  "slash_segment s = rev (takeWhile (\<lambda>x. x \<noteq> CHR ''/'') (rev s))"

text \<open>The segment after the last \<^verbatim>\<open>#\<close>, as the specification words the rule.\<close>

definition last_hash_segment :: "string \<Rightarrow> string option" where
  "last_hash_segment s =
     (if CHR ''#'' \<in> set s then Some (rev (takeWhile (\<lambda>x. x \<noteq> CHR ''#'') (rev s))) else None)"

text \<open>The generic path in the specification's words, for a given reading \<open>seg\<close> of
  the segment that the \<^verbatim>\<open>#\<close> rule compares: the first key, in the order of the keys,
  whose \<^verbatim>\<open>#\<close> segment is the short key; if there is none, the first whose segment
  after the last \<^verbatim>\<open>/\<close> is.\<close>

definition resolve_spec ::
  "(string \<Rightarrow> string option) \<Rightarrow> string \<Rightarrow> string list \<Rightarrow> string option" where
  "resolve_spec seg k ks =
     (case find (\<lambda>f. seg f = Some k) ks of
        Some f \<Rightarrow> Some f
      | None \<Rightarrow> find (\<lambda>f. slash_segment f = k) ks)"

text \<open>The unwrap rule in the specification's words, for a given reading \<open>present\<close> of
  "the field is present": a primitive is returned as it is; a sequence of length 1 is
  reduced to its sole element; the element's \<^verbatim>\<open>@value\<close> field is returned if present,
  else its \<^verbatim>\<open>@id\<close> field if present, else the element itself.\<close>

definition primitive :: "jsval \<Rightarrow> bool" where
  "primitive v =
     (case v of
        JStr s \<Rightarrow> True
      | JNum n \<Rightarrow> True
      | JBigInt i \<Rightarrow> True
      | JBool t \<Rightarrow> True
      | _ \<Rightarrow> False)"

definition field_if :: "(jsval \<Rightarrow> bool) \<Rightarrow> jsval \<Rightarrow> string \<Rightarrow> jsval option" where
  "field_if present e k =
     (case e of
        JObj kv \<Rightarrow>
          (case map_of kv k of
             Some a \<Rightarrow> if present a then Some a else None
           | None \<Rightarrow> None)
      | _ \<Rightarrow> None)"

definition object_unwrap :: "(jsval \<Rightarrow> bool) \<Rightarrow> jsval \<Rightarrow> jsval" where
  "object_unwrap present e =
     (case field_if present e ''@value'' of
        Some a \<Rightarrow> a
      | None \<Rightarrow> (case field_if present e ''@id'' of Some b \<Rightarrow> b | None \<Rightarrow> e))"

definition unwrap_rule :: "(jsval \<Rightarrow> bool) \<Rightarrow> jsval \<Rightarrow> jsval" where
  "unwrap_rule present v =
     (if primitive v then v
      else case v of
        JArr [x] \<Rightarrow> object_unwrap present x
      | _ \<Rightarrow> object_unwrap present v)"


text \<open>Present: an instance of \<^verbatim>\<open>JsonLDReader\<close> that is not a \<^verbatim>\<open>Nothing\<close>.\<close>

fun is_present :: "reader \<Rightarrow> bool" where
  "is_present (JsonLDReader v) = True"
| "is_present (Nothing e) = False"



section \<open>Splitting a string\<close>

lemma takeWhile_no_sep: "c \<notin> set xs \<Longrightarrow> takeWhile (\<lambda>x. x \<noteq> c) (xs @ ys) = xs @ takeWhile (\<lambda>x. x \<noteq> c) ys"
  by (induction xs) auto

lemma takeWhile_id: "c \<notin> set xs \<Longrightarrow> takeWhile (\<lambda>x. x \<noteq> c) xs = xs"
  by (induction xs) auto

lemma dropWhile_sep: "c \<notin> set pre \<Longrightarrow> dropWhile (\<lambda>x. x \<noteq> c) (pre @ c # post) = c # post"
  by (induction pre) auto

lemma js_split_not_Nil: "js_split c s \<noteq> []"
  by (induction s) (auto split: list.splits)

lemma length_js_split: "length (js_split c s) = Suc (count_list s c)"
  by (induction s) (auto split: list.splits)

lemma hd_js_split: "hd (js_split c s) = takeWhile (\<lambda>x. x \<noteq> c) s"
  by (induction s) (auto simp: js_split_not_Nil split: list.splits)

lemma js_split_no_sep: "c \<notin> set s \<Longrightarrow> js_split c s = [s]"
  by (induction s) auto

lemma js_split_sep: "c \<notin> set pre \<Longrightarrow> js_split c (pre @ c # post) = pre # js_split c post"
  by (induction pre) auto

lemma last_js_split_Cons:
  assumes "c \<in> set xs"
  shows "last (js_split c (x # xs)) = last (js_split c xs)"
proof -
  have "count_list xs c \<noteq> 0" using assms by (simp add: count_list_0_iff)
  then have "length (js_split c xs) \<ge> 2" by (simp add: length_js_split)
  then obtain y z zs where "js_split c xs = y # z # zs"
    by (cases "js_split c xs"; cases "tl (js_split c xs)") auto
  then show ?thesis by simp
qed

lemma last_js_split: "last (js_split c s) = rev (takeWhile (\<lambda>x. x \<noteq> c) (rev s))"
proof (induction s)
  case Nil
  show ?case by simp
next
  case (Cons x xs)
  show ?case
  proof (cases "c \<in> set xs")
    case True
    then have "c \<in> set (rev xs)" by simp
    then have "takeWhile (\<lambda>x. x \<noteq> c) (rev xs @ [x]) = takeWhile (\<lambda>x. x \<noteq> c) (rev xs)"
      by (simp add: takeWhile_append1)
    with True Cons.IH show ?thesis by (simp only: last_js_split_Cons rev.simps)
  next
    case False
    then have "c \<notin> set (rev xs)" by simp
    from takeWhile_no_sep [OF this, of "[x]"] False show ?thesis
      by (auto simp: js_split_no_sep)
  qed
qed

lemma piece_1_js_split:
  "piece (js_split c s) 1 =
     (if c \<in> set s then Some (takeWhile (\<lambda>x. x \<noteq> c) (tl (dropWhile (\<lambda>x. x \<noteq> c) s))) else None)"
proof (cases "c \<in> set s")
  case False
  then show ?thesis by (simp add: js_split_no_sep piece_def)
next
  case True
  then obtain pre post where s: "s = pre @ c # post" and pre: "c \<notin> set pre"
    by (meson split_list_first)
  have "js_split c s = pre # js_split c post" using s pre by (simp add: js_split_sep)
  moreover have "js_split c post \<noteq> []" by (rule js_split_not_Nil)
  ultimately have "piece (js_split c s) 1 = Some (hd (js_split c post))"
    by (cases "js_split c post") (auto simp: piece_def)
  moreover have "dropWhile (\<lambda>x. x \<noteq> c) s = c # post"
    using s pre by (simp add: dropWhile_sep)
  ultimately show ?thesis using True by (simp add: hd_js_split)
qed

lemma hash_key_iff: "hash_key key k \<longleftrightarrow> hash_segment k = Some key"
  unfolding hash_key_def hash_segment_def piece_1_js_split by auto

lemma slash_key_iff: "slash_key key k \<longleftrightarrow> slash_segment k = key"
proof -
  have "piece (js_split CHR ''/'' k) (length (js_split CHR ''/'' k) - 1) = Some (last (js_split CHR ''/'' k))"
    using js_split_not_Nil [of "CHR ''/''" k] by (simp add: piece_def last_conv_nth)
  then show ?thesis
    by (simp add: slash_key_def Let_def slash_segment_def last_js_split)
qed

section \<open>The generic path of key resolution\<close>

lemma find_cong_pred: "(\<And>x. P x = Q x) \<Longrightarrow> find P xs = find Q xs"
  by (induction xs) auto

lemma getFullKey_resolve:
  "getFullKey (JObj kv) k = Inr (resolve_spec hash_segment k (map fst kv))"
proof -
  have h: "find (hash_key k) (map fst kv) = find (\<lambda>f. hash_segment f = Some k) (map fst kv)"
    by (rule find_cong_pred) (simp add: hash_key_iff)
  have s: "find (slash_key k) (map fst kv) = find (\<lambda>f. slash_segment f = k) (map fst kv)"
    by (rule find_cong_pred) (simp add: slash_key_iff)
  show ?thesis
    by (simp add: getFullKey_def and_then_def resolve_spec_def h s split: option.splits)
qed

lemma not_reserved:
  "k \<notin> set [''type'', ''@type'', ''id'', ''@id'', ''value'', ''@value''] \<Longrightarrow>
   readAsPreDefinedKey scope k = Inr (JStr '''', False)"
  by (simp add: readAsPreDefinedKey_def and_then_def)

text \<open>
  Claim C1, as the code has it. On a node-object, when the reserved fast path found
  nothing (as for every key that is not reserved), \<^verbatim>\<open>read(k)\<close> picks the first key in
  key order whose text between the first \<^verbatim>\<open>#\<close> and the next \<^verbatim>\<open>#\<close> (or the end)
  equals \<open>k\<close>; if there is none, the first key whose segment after the last \<^verbatim>\<open>/\<close>
  (the whole key when it has no \<^verbatim>\<open>/\<close>) equals \<open>k\<close>. The Reader returned holds the
  value under that key (its extracted type when \<open>k\<close> is \<^verbatim>\<open>type\<close>); if no key matches
  either rule it is Absent with the message \<^verbatim>\<open>Not found key: \<close> followed by \<open>k\<close>.
\<close>

theorem read_generic_path:
  assumes "readAsPreDefinedKey (JObj kv) k = Inr (v0, False)"
  shows "reader_read (JsonLDReader (JObj kv)) (Key k) =
     (case resolve_spec hash_segment k (map fst kv) of
        None \<Rightarrow> Inr (Nothing (Error (''Not found key: '' @ k)))
      | Some f \<Rightarrow>
          if k = ''type''
          then and_then (extractType (lookup kv f)) (\<lambda>t. Inr (JsonLDReader t))
          else Inr (JsonLDReader (lookup kv f)))"
  using assms
  by (simp add: readAsObject_def getFullKey_resolve and_then_def JsonLDReader_of_def
      split: option.splits)

theorem read_generic_path_witness:
  "readAsPreDefinedKey
     (JObj [(''http://example.org/name'', JStr ''x''),
            (''https://www.w3.org/ns/activitystreams#name'', JStr ''juunini'')]) ''name'' =
     Inr (JStr '''', False) \<and>
   reader_read
     (JsonLDReader
       (JObj [(''http://example.org/name'', JStr ''x''),
              (''https://www.w3.org/ns/activitystreams#name'', JStr ''juunini'')]))
     (Key ''name'') = Inr (JsonLDReader (JStr ''juunini''))"
proof -
  let ?kv = "[(''http://example.org/name'', JStr ''x''),
              (''https://www.w3.org/ns/activitystreams#name'', JStr ''juunini'')]"
  have h: "readAsPreDefinedKey (JObj ?kv) ''name'' = Inr (JStr '''', False)"
    by (simp add: readAsPreDefinedKey_def and_then_def)
  from read_generic_path [OF h] h show ?thesis
    by (simp add: resolve_spec_def hash_segment_def slash_segment_def lookup_def)
qed

text \<open>Claim C1 as stated compares the segment after the last \<^verbatim>\<open>#\<close>. The key
  \<^verbatim>\<open>http://a#b#c\<close> has the segment \<^verbatim>\<open>c\<close> after its last \<^verbatim>\<open>#\<close>, so the rule
  as stated picks it for \<^verbatim>\<open>read('c')\<close>; the code finds nothing.\<close>

theorem read_last_hash_counterexample:
  "resolve_spec last_hash_segment ''c'' (map fst [(''http://a#b#c'', JStr ''v'')]) =
     Some ''http://a#b#c'' \<and>
   reader_read (JsonLDReader (JObj [(''http://a#b#c'', JStr ''v'')])) (Key ''c'') =
     Inr (Nothing (Error ''Not found key: c''))"
  by (simp add: resolve_spec_def last_hash_segment_def readAsObject_def readAsPreDefinedKey_def
      getFullKey_def and_then_def hash_key_def slash_key_def piece_def)

section \<open>Key reads on sequences\<close>

text \<open>
  Claim C2 says that a string-key read on a sequence of more than one element is Absent
  with \<^verbatim>\<open>Not an object\<close>. The guard of \<^verbatim>\<open>read\<close> is \<^verbatim>\<open>jsonld.length > 2\<close>: on a
  sequence of two node-objects the read descends into the first one.
\<close>

theorem read_key_on_pair:
  "reader_read
     (JsonLDReader (JArr [JObj [(''@id'', JStr ''a'')], JObj [(''@id'', JStr ''b'')]]))
     (Key ''id'') = Inr (JsonLDReader (JStr ''a''))"
  by (simp add: readAsObject_def readAsPreDefinedKey_def readId_def and_then_def lookup_def
      JsonLDReader_of_def)

lemma read_key_on_long_sequence:
  "length xs > 2 \<Longrightarrow> reader_read (JsonLDReader (JArr xs)) (Key k) = Inr (Nothing (Error ''Not an object''))"
  by (cases xs) auto

section \<open>The unwrapped value\<close>

lemma getValue_unwrap:
  assumes "v \<noteq> JNull" "v \<noteq> JUndefined"
    "\<not> (\<exists>kv. v = JObj kv \<and> lookup kv ''length'' = JNum (Fin 1))"
  shows "getValue v = Inr (unwrap_rule (\<lambda>a. \<not> nullish a) v)"
proof (cases v)
  case (JArr xs)
  show ?thesis
  proof (cases xs)
    case Nil
    with JArr show ?thesis
      by (simp add: getValue_def unwrap_rule_def primitive_def object_unwrap_def field_if_def
          and_then_def nullish_def)
  next
    case (Cons x ys)
    show ?thesis
    proof (cases ys)
      case Nil
      with JArr Cons show ?thesis
        by (cases x)
          (auto simp: getValue_def unwrap_rule_def primitive_def object_unwrap_def field_if_def
            coalesce_def nullish_def lookup_def split: option.splits)
    next
      case (Cons y zs)
      with JArr \<open>xs = x # ys\<close> show ?thesis
        by (simp add: getValue_def unwrap_rule_def primitive_def object_unwrap_def field_if_def
            and_then_def nullish_def)
    qed
  qed
next
  case (JObj kv)
  with assms(3) show ?thesis
    by (auto simp: getValue_def unwrap_rule_def primitive_def object_unwrap_def field_if_def
        and_then_def nullish_def lookup_def split: option.splits)
qed (use assms in \<open>simp_all add: getValue_def unwrap_rule_def primitive_def\<close>)

text \<open>
  Claim C3, as the code has it. For every Present Reader whose fragment is neither
  \<^verbatim>\<open>null\<close> nor \<^verbatim>\<open>undefined\<close>, and is not a plain object with a \<^verbatim>\<open>length\<close> field
  equal to 1, \<^verbatim>\<open>get()\<close>, \<^verbatim>\<open>getOrThrow()\<close> and \<^verbatim>\<open>getOrElse(d)\<close> return the same
  value, computed by the unwrap rule where a field counts as present when its value is
  neither \<^verbatim>\<open>null\<close> nor \<^verbatim>\<open>undefined\<close>.
\<close>

theorem get_unwrap_rule:
  assumes "v \<noteq> JNull" "v \<noteq> JUndefined"
    "\<not> (\<exists>kv. v = JObj kv \<and> lookup kv ''length'' = JNum (Fin 1))"
  shows "get (JsonLDReader v) = Inr (unwrap_rule (\<lambda>a. \<not> nullish a) v) \<and>
         getOrThrow (JsonLDReader v) error = Inr (unwrap_rule (\<lambda>a. \<not> nullish a) v) \<and>
         getOrElse (JsonLDReader v) d = Inr (unwrap_rule (\<lambda>a. \<not> nullish a) v)"
  using getValue_unwrap [OF assms] by simp

theorem get_unwrap_rule_witness:
  "get (JsonLDReader (JArr [JObj [(''@value'', JStr ''juunini'')]])) = Inr (JStr ''juunini'') \<and>
   getOrThrow (JsonLDReader (JArr [JObj [(''@value'', JStr ''juunini'')]])) None = Inr (JStr ''juunini'') \<and>
   getOrElse (JsonLDReader (JArr [JObj [(''@value'', JStr ''juunini'')]])) JNull = Inr (JStr ''juunini'')"
proof -
  let ?v = "JArr [JObj [(''@value'', JStr ''juunini'')]]"
  have 1: "?v \<noteq> JNull" and 2: "?v \<noteq> JUndefined"
    and 3: "\<not> (\<exists>kv. ?v = JObj kv \<and> lookup kv ''length'' = JNum (Fin 1))"
    by simp_all
  have u: "unwrap_rule (\<lambda>a. \<not> nullish a) ?v = JStr ''juunini''"
    by (simp add: unwrap_rule_def primitive_def object_unwrap_def field_if_def nullish_def)
  from get_unwrap_rule [OF 1 2 3, of None JNull] show ?thesis
    by (simp only: u)
qed

text \<open>Claim C3 as stated returns the \<^verbatim>\<open>@value\<close> field whenever the element has one.
  On an element whose \<^verbatim>\<open>@value\<close> is \<^verbatim>\<open>null\<close> the rule gives \<^verbatim>\<open>null\<close>; the code
  goes on to the \<^verbatim>\<open>@id\<close> field.\<close>

theorem get_present_counterexample:
  "unwrap_rule (\<lambda>a. True) (JArr [JObj [(''@value'', JNull), (''@id'', JStr ''a'')]]) = JNull \<and>
   get (JsonLDReader (JArr [JObj [(''@value'', JNull), (''@id'', JStr ''a'')]])) = Inr (JStr ''a'')"
  by (simp add: unwrap_rule_def primitive_def object_unwrap_def field_if_def getValue_def
      coalesce_def nullish_def lookup_def)

section \<open>Type extraction\<close>

lemma extractType_one_hash:
  assumes "CHR ''#'' \<notin> set pre" "CHR ''#'' \<notin> set post"
  shows "extractType (JStr (pre @ CHR ''#'' # post)) = Inr (JStr post)"
proof -
  have "js_split CHR ''#'' (pre @ CHR ''#'' # post) = [pre, post]"
    using assms by (simp add: js_split_sep js_split_no_sep)
  then show ?thesis by simp
qed

lemma extractType_slash:
  assumes "count_list (pre @ CHR ''/'' # post) CHR ''#'' \<noteq> 1" "CHR ''/'' \<notin> set post"
  shows "extractType (JStr (pre @ CHR ''/'' # post)) = Inr (JStr post)"
proof -
  let ?s = "pre @ CHR ''/'' # post"
  let ?sl = "js_split CHR ''/'' ?s"
  have h: "length (js_split CHR ''#'' ?s) \<noteq> 2"
    using assms(1) unfolding length_js_split by simp
  have "length ?sl = Suc (count_list ?s CHR ''/'')" by (rule length_js_split)
  then have l: "length ?sl \<noteq> 1" by simp
  have "?sl ! (length ?sl - 1) = last ?sl"
    using js_split_not_Nil [of "CHR ''/''" ?s] by (simp add: last_conv_nth)
  also have "\<dots> = rev (takeWhile (\<lambda>x. x \<noteq> CHR ''/'') (rev ?s))" by (rule last_js_split)
  also have "\<dots> = post"
    using assms(2) takeWhile_no_sep [of "CHR ''/''" "rev post" "CHR ''/'' # rev pre"] by simp
  finally have "?sl ! (length ?sl - 1) = post" .
  with h l show ?thesis by (simp add: Let_def)
qed

lemma extractType_bare:
  assumes "CHR ''#'' \<notin> set s" "CHR ''/'' \<notin> set s"
  shows "extractType (JStr s) = Inr (JStr s)"
  using assms by (simp add: js_split_no_sep)

text \<open>
  Claim C4. Type extraction recurses on the first element of a sequence; a literal
  wrapper yields its \<^verbatim>\<open>@value\<close>; a string with exactly one \<^verbatim>\<open>#\<close> yields the text
  after it; otherwise a string with a \<^verbatim>\<open>/\<close> yields the text after the last one; a
  token with neither separator is returned unchanged. So \<^verbatim>\<open>read('type').get()\<close> is
  \<^verbatim>\<open>Person\<close> on both \<^verbatim>\<open>https://example.org/ns#Person\<close> and
  \<^verbatim>\<open>https://example.org/Person\<close>.
\<close>

theorem extractType_rule:
  "extractType (JArr xs) = extractType (index0 (JArr xs)) \<and>
   (map_of kv ''@value'' = Some l \<longrightarrow> extractType (JObj kv) = Inr l) \<and>
   (CHR ''#'' \<notin> set pre \<and> CHR ''#'' \<notin> set post \<longrightarrow>
      extractType (JStr (pre @ CHR ''#'' # post)) = Inr (JStr post)) \<and>
   (count_list (pre @ CHR ''/'' # post) CHR ''#'' \<noteq> 1 \<and> CHR ''/'' \<notin> set post \<longrightarrow>
      extractType (JStr (pre @ CHR ''/'' # post)) = Inr (JStr post)) \<and>
   (CHR ''#'' \<notin> set s \<and> CHR ''/'' \<notin> set s \<longrightarrow> extractType (JStr s) = Inr (JStr s)) \<and>
   and_then
     (reader_read
        (JsonLDReader (JArr [JObj [(''@type'', JArr [JStr ''https://example.org/ns#Person''])]]))
        (Key ''type'')) get = Inr (JStr ''Person'') \<and>
   and_then
     (reader_read
        (JsonLDReader (JArr [JObj [(''@type'', JArr [JStr ''https://example.org/Person''])]]))
        (Key ''type'')) get = Inr (JStr ''Person'')"
proof -
  have a: "extractType (JArr xs) = extractType (index0 (JArr xs))"
    by (cases xs) simp_all
  have b: "map_of kv ''@value'' = Some l \<longrightarrow> extractType (JObj kv) = Inr l"
    by (simp add: lookup_def)
  have c: "CHR ''#'' \<notin> set pre \<and> CHR ''#'' \<notin> set post \<longrightarrow>
      extractType (JStr (pre @ CHR ''#'' # post)) = Inr (JStr post)"
    using extractType_one_hash [of pre post] by blast
  have d: "count_list (pre @ CHR ''/'' # post) CHR ''#'' \<noteq> 1 \<and> CHR ''/'' \<notin> set post \<longrightarrow>
      extractType (JStr (pre @ CHR ''/'' # post)) = Inr (JStr post)"
    using extractType_slash [of pre post] by blast
  have e: "CHR ''#'' \<notin> set s \<and> CHR ''/'' \<notin> set s \<longrightarrow> extractType (JStr s) = Inr (JStr s)"
    using extractType_bare [of s] by blast
  have e1: "and_then
     (reader_read
        (JsonLDReader (JArr [JObj [(''@type'', JArr [JStr ''https://example.org/ns#Person''])]]))
        (Key ''type'')) get = Inr (JStr ''Person'')"
    by (simp add: readAsObject_def readAsPreDefinedKey_def readType_def and_then_def
          lookup_def getValue_def JsonLDReader_of_def)
  have e2: "and_then
     (reader_read
        (JsonLDReader (JArr [JObj [(''@type'', JArr [JStr ''https://example.org/Person''])]]))
        (Key ''type'')) get = Inr (JStr ''Person'')"
    by (simp add: readAsObject_def readAsPreDefinedKey_def readType_def and_then_def
          lookup_def getValue_def JsonLDReader_of_def)
  show ?thesis
    by (intro conjI a b c d e e1 e2)
qed

theorem extractType_rule_witness:
  "extractType (JObj [(''@value'', JStr ''Person'')]) = Inr (JStr ''Person'') \<and>
   extractType (JStr ''https://example.org/ns#Thing'') = Inr (JStr ''Thing'') \<and>
   extractType (JStr ''https://example.org/Thing'') = Inr (JStr ''Thing'') \<and>
   extractType (JStr ''Thing'') = Inr (JStr ''Thing'')"
proof -
  note r = extractType_rule [of "[]" "[(''@value'', JStr ''Person'')]" "JStr ''Person''"
      "''https://example.org/ns''" "''Thing''" "''Thing''"]
  note q = extractType_rule [of "[]" "[]" "JNull" "''https://example.org''" "''Thing''" "''Thing''"]
  have 1: "extractType (JObj [(''@value'', JStr ''Person'')]) = Inr (JStr ''Person'')"
    using r [THEN conjunct2, THEN conjunct1] by simp
  have 2: "extractType (JStr ''https://example.org/ns#Thing'') = Inr (JStr ''Thing'')"
    using r [THEN conjunct2, THEN conjunct2, THEN conjunct1] by simp
  have 3: "extractType (JStr ''https://example.org/Thing'') = Inr (JStr ''Thing'')"
    using q [THEN conjunct2, THEN conjunct2, THEN conjunct2, THEN conjunct1] by simp
  have 4: "extractType (JStr ''Thing'') = Inr (JStr ''Thing'')"
    using r [THEN conjunct2, THEN conjunct2, THEN conjunct2, THEN conjunct2, THEN conjunct1]
    by simp
  show ?thesis by (intro conjI 1 2 3 4)
qed

section \<open>The two spellings of a reserved key\<close>

lemma readAsPreDefinedKey_type:
  "lookup kv ''@type'' \<noteq> JUndefined \<Longrightarrow>
   readAsObject (JObj kv) ''type'' = readAsObject (JObj kv) ''@type''"
  by (auto simp: readAsObject_def readAsPreDefinedKey_def readType_def and_then_def
      split: sum.splits)

lemma readAsPreDefinedKey_id:
  "lookup kv ''@id'' \<noteq> JUndefined \<Longrightarrow>
   readAsObject (JObj kv) ''id'' = readAsObject (JObj kv) ''@id''"
  by (simp add: readAsObject_def readAsPreDefinedKey_def readId_def and_then_def)

lemma readAsPreDefinedKey_value:
  "lookup kv ''@value'' \<noteq> JUndefined \<Longrightarrow>
   readAsObject (JObj kv) ''value'' = readAsObject (JObj kv) ''@value''"
  by (simp add: readAsObject_def readAsPreDefinedKey_def readValue_def and_then_def)

text \<open>
  Claim C5. On a node-object that has the canonical form of a reserved key, reading
  by either spelling gives the same Reader and the same unwrapped value: \<^verbatim>\<open>id\<close> and
  \<^verbatim>\<open>@id\<close>, \<^verbatim>\<open>type\<close> and \<^verbatim>\<open>@type\<close>, \<^verbatim>\<open>value\<close> and \<^verbatim>\<open>@value\<close>.
\<close>

theorem reserved_key_aliasing:
  "(lookup kv ''@id'' \<noteq> JUndefined \<longrightarrow>
      reader_read (JsonLDReader (JObj kv)) (Key ''id'') =
        reader_read (JsonLDReader (JObj kv)) (Key ''@id'') \<and>
      and_then (reader_read (JsonLDReader (JObj kv)) (Key ''id'')) get =
        and_then (reader_read (JsonLDReader (JObj kv)) (Key ''@id'')) get) \<and>
   (lookup kv ''@type'' \<noteq> JUndefined \<longrightarrow>
      reader_read (JsonLDReader (JObj kv)) (Key ''type'') =
        reader_read (JsonLDReader (JObj kv)) (Key ''@type'') \<and>
      and_then (reader_read (JsonLDReader (JObj kv)) (Key ''type'')) get =
        and_then (reader_read (JsonLDReader (JObj kv)) (Key ''@type'')) get) \<and>
   (lookup kv ''@value'' \<noteq> JUndefined \<longrightarrow>
      reader_read (JsonLDReader (JObj kv)) (Key ''value'') =
        reader_read (JsonLDReader (JObj kv)) (Key ''@value'') \<and>
      and_then (reader_read (JsonLDReader (JObj kv)) (Key ''value'')) get =
        and_then (reader_read (JsonLDReader (JObj kv)) (Key ''@value'')) get)"
  using readAsPreDefinedKey_id [of kv] readAsPreDefinedKey_type [of kv]
    readAsPreDefinedKey_value [of kv]
  by simp

theorem reserved_key_aliasing_witness:
  "lookup [(''@id'', JStr ''https://mastodon.social/users/juunini'')] ''@id'' \<noteq> JUndefined \<and>
   and_then (reader_read (JsonLDReader (JObj [(''@id'', JStr ''https://mastodon.social/users/juunini'')]))
      (Key ''id'')) get = Inr (JStr ''https://mastodon.social/users/juunini'') \<and>
   and_then (reader_read (JsonLDReader (JObj [(''@id'', JStr ''https://mastodon.social/users/juunini'')]))
      (Key ''@id'')) get = Inr (JStr ''https://mastodon.social/users/juunini'')"
proof -
  let ?kv = "[(''@id'', JStr ''https://mastodon.social/users/juunini'')]"
  have h: "lookup ?kv ''@id'' \<noteq> JUndefined" by (simp add: lookup_def)
  have a: "and_then (reader_read (JsonLDReader (JObj ?kv)) (Key ''@id'')) get =
      Inr (JStr ''https://mastodon.social/users/juunini'')"
    by (simp add: readAsObject_def readAsPreDefinedKey_def readId_def and_then_def lookup_def
        JsonLDReader_of_def getValue_def)
  from reserved_key_aliasing [of ?kv, THEN conjunct1, rule_format, OF h, THEN conjunct2] a h
  show ?thesis by (simp only: simp_thms)
qed

section \<open>Boolean coercion\<close>

text \<open>
  Claim C6. \<^verbatim>\<open>booleanOrThrow()\<close> returns true exactly when the unwrapped value is
  \<^verbatim>\<open>true\<close>, \<^verbatim>\<open>'true'\<close>, \<^verbatim>\<open>'1'\<close> or the number 1, false exactly when it is
  \<^verbatim>\<open>false\<close>, \<^verbatim>\<open>'false'\<close>, \<^verbatim>\<open>'0'\<close> or the number 0, and on every other unwrapped
  value it throws the caller's error, or \<^verbatim>\<open>Not a boolean\<close> when there is none.
\<close>

theorem booleanOrThrow_table:
  assumes "getValue v = Inr u"
  shows "(booleanOrThrow (JsonLDReader v) error = Inr True \<longleftrightarrow>
            u = JBool True \<or> u = JStr ''true'' \<or> u = JStr ''1'' \<or> u = JNum (Fin 1)) \<and>
         (booleanOrThrow (JsonLDReader v) error = Inr False \<longleftrightarrow>
            u = JBool False \<or> u = JStr ''false'' \<or> u = JStr ''0'' \<or> u = JNum (Fin 0)) \<and>
         (u \<notin> {JBool True, JStr ''true'', JStr ''1'', JNum (Fin 1),
                 JBool False, JStr ''false'', JStr ''0'', JNum (Fin 0)} \<longrightarrow>
            booleanOrThrow (JsonLDReader v) error =
              Inl (or_default error (Error ''Not a boolean'')))"
  using assms by (cases u) (auto simp: and_then_def)

theorem booleanOrThrow_table_witness:
  "getValue (JArr [JObj [(''@value'', JStr ''yes'')]]) = Inr (JStr ''yes'') \<and>
   booleanOrThrow (JsonLDReader (JArr [JObj [(''@value'', JStr ''yes'')]])) None =
     Inl (Error ''Not a boolean'') \<and>
   getValue (JNum (Fin 2)) = Inr (JNum (Fin 2)) \<and>
   booleanOrThrow (JsonLDReader (JNum (Fin 2))) None = Inl (Error ''Not a boolean'') \<and>
   getValue (JStr ''1'') = Inr (JStr ''1'') \<and>
   booleanOrThrow (JsonLDReader (JStr ''1'')) None = Inr True"
proof -
  have 1: "getValue (JArr [JObj [(''@value'', JStr ''yes'')]]) = Inr (JStr ''yes'')"
    by (simp add: getValue_def lookup_def coalesce_def nullish_def)
  have 2: "getValue (JNum (Fin 2)) = Inr (JNum (Fin 2))"
    by (simp add: getValue_def)
  have 3: "getValue (JStr ''1'') = Inr (JStr ''1'')"
    by (simp add: getValue_def)
  from booleanOrThrow_table [OF 1, of None] booleanOrThrow_table [OF 2, of None]
    booleanOrThrow_table [OF 3, of None] 1 2 3
  show ?thesis by (simp add: or_default_def)
qed

section \<open>Absent is absorbing\<close>

text \<open>
  Claim C7. If \<^verbatim>\<open>R.read(m)\<close> is Absent, then \<^verbatim>\<open>R.read(m).read(x)\<close> is the same
  Absent Reader with the same single diagnostic, for every key or index \<open>x\<close>.
\<close>

theorem absent_absorbing:
  assumes "reader_read r m = Inr (Nothing e)"
  shows "and_then (reader_read r m) (\<lambda>a. reader_read a x) = Inr (Nothing e) \<and>
         errors_of (Nothing e) = [e]"
  using assms by (simp add: and_then_def)

theorem absent_absorbing_witness:
  "reader_read (JsonLDReader (JObj [])) (Key ''uid'') = Inr (Nothing (Error ''Not found key: uid'')) \<and>
   and_then (reader_read (JsonLDReader (JObj [])) (Key ''uid'')) (\<lambda>a. reader_read a (Index 0)) =
     Inr (Nothing (Error ''Not found key: uid''))"
proof -
  have h: "reader_read (JsonLDReader (JObj [])) (Key ''uid'') =
      Inr (Nothing (Error ''Not found key: uid''))"
    by (simp add: readAsObject_def readAsPreDefinedKey_def getFullKey_def and_then_def)
  from absent_absorbing [OF h, of "Index 0"] h show ?thesis by simp
qed

section \<open>The suppressing terminal calls\<close>

lemma typed_OrElse_never_raise:
  "(\<exists>s. stringOrElse b r ds = Inr s) \<and> (\<exists>n. numberOrElse b r dn = Inr n) \<and>
   (\<exists>t. booleanOrElse r dt = Inr t)"
  by (cases r) (auto simp: try_catch_def split: sum.splits)

lemma OrElse_absent:
  "getOrElse (Nothing e) d = Inr d \<and> stringOrElse b (Nothing e) ds = Inr ds \<and>
   numberOrElse b (Nothing e) dn = Inr dn \<and> booleanOrElse (Nothing e) dt = Inr dt"
  by simp

text \<open>
  Claim C8 says that the four \<^verbatim>\<open>OrElse\<close> calls never raise. The three typed calls
  never do, and on an Absent Reader all four return the default. On a Present Reader
  \<^verbatim>\<open>getOrElse\<close> is the bare unwrap, which raises a \<^verbatim>\<open>TypeError\<close> on the fragment
  \<^verbatim>\<open>null\<close>: the index read of \<^verbatim>\<open>[null]\<close> at 0 is Present, and its
  \<^verbatim>\<open>getOrElse\<close> throws.
\<close>

theorem getOrElse_null_raises:
  "and_then (reader_read (JsonLDReader_of (JArr [JNull])) (Index 0))
     (\<lambda>r. getOrElse r (JStr ''default'')) = Inl TypeError"
  by (simp add: JsonLDReader_of_def readAsArray_def at_index_def and_then_def getValue_def)

section \<open>The invariant of reachable Readers\<close>





















text \<open>Two more Present Readers with the value \<^verbatim>\<open>undefined\<close>: \<^verbatim>\<open>strict\<close> of an Absent
  Reader, and the type read of a node whose type is a reference.\<close>

lemma strict_absent_present:
  "is_present (strict (Nothing e)) \<and> value_of (strict (Nothing e)) = JUndefined"
  by (simp add: strict_def JsonLDReader_of_def)

lemma read_type_undefined:
  "reader_read (JsonLDReader (JObj [(''https://www.w3.org/ns/activitystreams#type'',
      JArr [JObj [(''@id'', JStr ''https://www.w3.org/ns/activitystreams#Person'')]])])) (Key ''type'')
   = Inr (JsonLDReader JUndefined)"
  by (simp add: readAsObject_def readAsPreDefinedKey_def readType_def and_then_def lookup_def
      hash_key_def piece_def JsonLDReader_of_def)

section \<open>Numeric coercion\<close>

lemma WhiteSpace_shape:
  assumes "w \<in> set WhiteSpace"
  shows "w \<noteq> [] \<and>
         length w = (if hd w = CHR 0xC2 then 2
                     else if hd w \<in> {CHR 0xE1, CHR 0xE2, CHR 0xE3, CHR 0xEF} then 3 else 1)"
  using assms unfolding WhiteSpace_def by auto

lemma WhiteSpace_prefix_free:
  assumes "u \<in> set WhiteSpace" "w \<in> set WhiteSpace" "prefix u (w @ rest)"
  shows "u = w"
proof -
  from assms(3) have "prefix u w \<or> prefix w u"
    by (meson prefix_append prefix_order.order_refl prefix_same_cases prefixI)
  moreover from WhiteSpace_shape [OF assms(1)] WhiteSpace_shape [OF assms(2)]
  have "u \<noteq> []" "w \<noteq> []" "hd u = hd w \<longrightarrow> length u = length w" by auto
  moreover have "hd u = hd w" if "prefix u w \<or> prefix w u"
    using that \<open>u \<noteq> []\<close> \<open>w \<noteq> []\<close> by (cases u; cases w) auto
  ultimately have "length u = length w" and "prefix u w \<or> prefix w u" by auto
  then show ?thesis
    by (auto simp: prefix_def)
qed

lemma trimStart_WhiteSpace:
  assumes "w \<in> set WhiteSpace"
  shows "trimStart (w @ rest) = trimStart rest"
proof -
  from WhiteSpace_shape [OF assms] obtain c w' where w: "w = c # w'" by (cases w) auto
  have "prefix w (w @ rest)" by simp
  with assms obtain u where u: "find (\<lambda>u. prefix u (w @ rest)) WhiteSpace = Some u"
    by (cases "find (\<lambda>u. prefix u (w @ rest)) WhiteSpace") (auto simp: find_None_iff)
  then have m: "u \<in> set WhiteSpace" and p: "prefix u (w @ rest)"
    by (auto simp: find_Some_iff)
  have "u = w" by (rule WhiteSpace_prefix_free [OF m assms p])
  with u w show ?thesis by simp
qed

lemma trimStart_concat:
  "set ws \<subseteq> set WhiteSpace \<Longrightarrow> trimStart (concat ws @ rest) = trimStart rest"
  by (induction ws) (simp_all add: trimStart_WhiteSpace)

lemma StringToNumber_blank:
  "set ws \<subseteq> set WhiteSpace \<Longrightarrow> StringToNumber b (concat ws) = Fin 0"
  using trimStart_concat [of ws "[]"] by (simp add: StringToNumber_def)

lemma numberOrThrow_converts:
  assumes "getValue v = Inr u" "ToNumber b u \<noteq> NaN"
  shows "numberOrThrow b (JsonLDReader v) error = Inr (ToNumber b u)"
  using assms by (cases u) (simp_all add: and_then_def isNaN_def Let_def)

text \<open>
  Claim C10. \<^verbatim>\<open>numberOrThrow()\<close> on a Present Reader returns the numeric conversion
  of the unwrapped value whenever that is not NaN: 0 for the empty sequence, 0 or 1 for
  a boolean, 0 for a string of white space only.
\<close>

theorem numberOrThrow_lenient:
  "(getValue v = Inr u \<and> ToNumber b u \<noteq> NaN \<longrightarrow>
      numberOrThrow b (JsonLDReader v) error = Inr (ToNumber b u)) \<and>
   numberOrThrow b (JsonLDReader (JArr [])) error = Inr (Fin 0) \<and>
   numberOrThrow b (JsonLDReader (JBool t)) error = Inr (if t then Fin 1 else Fin 0) \<and>
   (set ws \<subseteq> set WhiteSpace \<longrightarrow>
      numberOrThrow b (JsonLDReader (JStr (concat ws))) error = Inr (Fin 0))"
proof -
  have a: "getValue v = Inr u \<and> ToNumber b u \<noteq> NaN \<longrightarrow>
      numberOrThrow b (JsonLDReader v) error = Inr (ToNumber b u)"
    using numberOrThrow_converts [of v u b error] by blast
  have e: "numberOrThrow b (JsonLDReader (JArr [])) error = Inr (Fin 0)"
    by (simp add: getValue_def and_then_def isNaN_def StringToNumber_def nullish_def)
  have t: "numberOrThrow b (JsonLDReader (JBool t)) error = Inr (if t then Fin 1 else Fin 0)"
    by (simp add: getValue_def and_then_def isNaN_def)
  have w: "set ws \<subseteq> set WhiteSpace \<longrightarrow>
      numberOrThrow b (JsonLDReader (JStr (concat ws))) error = Inr (Fin 0)"
    by (simp add: getValue_def and_then_def isNaN_def StringToNumber_blank)
  show ?thesis by (intro conjI a e t w)
qed

theorem numberOrThrow_lenient_witness:
  "getValue (JArr [JObj [(''@value'', JStr ''42'')]]) = Inr (JStr ''42'') \<and>
   numberOrThrow
     \<lparr>NumberToString = (\<lambda>n. ''NaN''),
      StringNumericLiteral = (\<lambda>s. if s = ''42'' then Fin 42 else NaN),
      BigIntToNumber = (\<lambda>i. Fin (of_int i))\<rparr>
     (JsonLDReader (JArr [JObj [(''@value'', JStr ''42'')]])) None = Inr (Fin 42) \<and>
   numberOrThrow
     \<lparr>NumberToString = (\<lambda>n. ''NaN''),
      StringNumericLiteral = (\<lambda>s. if s = ''42'' then Fin 42 else NaN),
      BigIntToNumber = (\<lambda>i. Fin (of_int i))\<rparr>
     (JsonLDReader (JStr [CHR 0x20, CHR 0x09, CHR 0xC2, CHR 0xA0])) None = Inr (Fin 0)"
proof -
  let ?b = "\<lparr>NumberToString = (\<lambda>n. ''NaN''),
      StringNumericLiteral = (\<lambda>s. if s = ''42'' then Fin 42 else NaN),
      BigIntToNumber = (\<lambda>i. Fin (of_int i))\<rparr>"
  let ?v = "JArr [JObj [(''@value'', JStr ''42'')]]"
  let ?ws = "[[CHR 0x20], [CHR 0x09], [CHR 0xC2, CHR 0xA0]]"
  note r = numberOrThrow_lenient [of ?v "JStr ''42''" ?b None True ?ws]
  have g: "getValue ?v = Inr (JStr ''42'')"
    by (simp add: getValue_def coalesce_def nullish_def lookup_def)
  have n: "ToNumber ?b (JStr ''42'') = Fin 42"
    by (simp add: StringToNumber_def WhiteSpace_def)
  have s: "set ?ws \<subseteq> set WhiteSpace" by (simp add: WhiteSpace_def)
  from r [THEN conjunct1] g n
  have 1: "numberOrThrow ?b (JsonLDReader ?v) None = Inr (Fin 42)" by simp
  from r [THEN conjunct2, THEN conjunct2, THEN conjunct2] s
  have 2: "numberOrThrow ?b (JsonLDReader (JStr [CHR 0x20, CHR 0x09, CHR 0xC2, CHR 0xA0])) None
      = Inr (Fin 0)" by simp
  show ?thesis by (intro conjI g 1 2)
qed

end
